theory Spec2Isabelle
  imports Main
begin

section \<open>Violations\<close>

text \<open>
  The exception classes of \<^verbatim>\<open>quantum_loop_enforcer.py\<close>, as values. The Python
  exceptions carry one formatted message; the constructors carry the values that the
  message interpolates, in the order in which the f-string prints them:
  \<^item> \<^verbatim>\<open>IrreversibleFunctionError\<close>: the function's name, the recorded input
    \<^verbatim>\<open>seen_outputs[y]\<close>, the current input \<^verbatim>\<open>x\<close>, the output \<^verbatim>\<open>y\<close>;
  \<^item> \<^verbatim>\<open>InformationDeletionError\<close>: the function's name;
  \<^item> \<^verbatim>\<open>ControlFlowDivergenceError\<close>: the function's name, the forbidden name found;
  \<^item> \<^verbatim>\<open>ValueError\<close> (Python's own): its message.
\<close>

datatype error =
    IrreversibleFunctionError string int int int
  | InformationDeletionError string
  | ControlFlowDivergenceError string string
  | ValueError string

text \<open>The three violations derive from \<^verbatim>\<open>QuantumRuleViolation\<close>; \<^verbatim>\<open>ValueError\<close> does not.\<close>

fun is_QuantumRuleViolation :: "error \<Rightarrow> bool" where
  "is_QuantumRuleViolation (IrreversibleFunctionError n x' x y) = True"
| "is_QuantumRuleViolation (InformationDeletionError n) = True"
| "is_QuantumRuleViolation (ControlFlowDivergenceError n k) = True"
| "is_QuantumRuleViolation (ValueError m) = False"

section \<open>Function objects\<close>

text \<open>
  What the decorators read of a function object: \<^verbatim>\<open>func.__name__\<close>,
  \<^verbatim>\<open>func.__code__.co_names\<close> (a tuple of strings) and the call itself. The type of
  the call is a parameter, so that one record serves pure functions and functions with
  effects.
\<close>

record 'c pyfunction =
  fn_name :: string
  co_names :: "string list"
  fn_call :: 'c

section \<open>The reversibility decorator\<close>

text \<open>
  \<^verbatim>\<open>seen_outputs\<close> is a dictionary created by each call of \<^verbatim>\<open>reversible\<close> and
  captured by the \<^verbatim>\<open>wrapper\<close> it returns. The store holds these dictionaries by
  address; \<open>next_cell\<close> is the first address not yet given out.
\<close>

type_synonym ledger = "int \<rightharpoonup> int"

record store =
  dicts :: "nat \<Rightarrow> ledger"
  next_cell :: nat

text \<open>The closure returned by \<^verbatim>\<open>reversible\<close>: the wrapped function and the address of
  its own \<^verbatim>\<open>seen_outputs\<close>.\<close>

record closure =
  cl_func :: "(int \<Rightarrow> int) pyfunction"
  cl_seen_outputs :: nat

definition reversible :: "(int \<Rightarrow> int) pyfunction \<Rightarrow> store \<Rightarrow> closure \<times> store" where
  "reversible func st =
     (\<lparr>cl_func = func, cl_seen_outputs = next_cell st\<rparr>,
      st\<lparr>dicts := (dicts st)(next_cell st := Map.empty), next_cell := Suc (next_cell st)\<rparr>)"

text \<open>
  One call of the \<^verbatim>\<open>wrapper\<close>: the raise leaves the store as it is, the normal path
  executes \<^verbatim>\<open>seen_outputs[y] = x\<close> and returns \<^verbatim>\<open>y\<close>.
\<close>

definition reversible_wrapper :: "closure \<Rightarrow> int \<Rightarrow> store \<Rightarrow> (error + int) \<times> store" where
  "reversible_wrapper w x st =
     (let seen_outputs = dicts st (cl_seen_outputs w);
          y = fn_call (cl_func w) x
      in if seen_outputs y \<noteq> None \<and> the (seen_outputs y) \<noteq> x
         then (Inl (IrreversibleFunctionError (fn_name (cl_func w)) (the (seen_outputs y)) x y), st)
         else (Inr y, st\<lparr>dicts := (dicts st)(cl_seen_outputs w := seen_outputs(y \<mapsto> x))\<rparr>))"

text \<open>
  A caller that calls the same wrapper on each input of a list in turn and observes every
  outcome (catching the exception of a failed call and going on).
\<close>

fun calls :: "closure \<Rightarrow> int list \<Rightarrow> store \<Rightarrow> (error + int) list \<times> store" where
  "calls w [] st = ([], st)"
| "calls w (x # xs) st =
     (case reversible_wrapper w x st of
        (r, st') \<Rightarrow> (case calls w xs st' of (rs, st'') \<Rightarrow> (r # rs, st'')))"

section \<open>The information-preservation decorator\<close>

text \<open>
  Python values, as far as the check tells them apart: \<^verbatim>\<open>None\<close> and everything else.
  Zero, \<^verbatim>\<open>False\<close>, the empty string and the empty list are values, not \<^verbatim>\<open>None\<close>:
  the source tests \<^verbatim>\<open>result is None\<close>, not truthiness.
\<close>

datatype pyobj = PyNone | PyInt int | PyBool bool | PyStr string | PyList "pyobj list"

text \<open>
  The \<^verbatim>\<open>wrapper\<close> returned by \<^verbatim>\<open>no_information_deletion(func)\<close>, applied to its
  arguments. \<open>'a\<close> stands for the whole \<^verbatim>\<open>(*args, **kwargs)\<close>, handed on as it is.
  The wrapped function may have effects on a state \<open>'s\<close> and may raise; an exception of
  \<^verbatim>\<open>func\<close> passes through the wrapper, which has no handler.
\<close>

definition no_information_deletion ::
  "('a \<Rightarrow> 's \<Rightarrow> (error + pyobj) \<times> 's) pyfunction \<Rightarrow> 'a \<Rightarrow> 's \<Rightarrow> (error + pyobj) \<times> 's" where
  "no_information_deletion func args s =
     (case fn_call func args s of
        (Inl e, s') \<Rightarrow> (Inl e, s')
      | (Inr result, s') \<Rightarrow>
          if result = PyNone
          then (Inl (InformationDeletionError (fn_name func)), s')
          else (Inr result, s'))"

section \<open>The control-flow decorator\<close>

definition forbidden :: "string set" where
  "forbidden = {''if'', ''while'', ''break'', ''continue''}"

text \<open>
  \<^verbatim>\<open>for name in forbidden\<close> visits the members of a set, in an order that Python does
  not fix (string hashes vary between runs). The order of the visit is the list
  \<open>order\<close>, an enumeration of \<^const>\<open>forbidden\<close>. The decorator runs when the function
  is defined; it reads \<^verbatim>\<open>co_names\<close> and \<^verbatim>\<open>__name__\<close>, never calls \<^verbatim>\<open>func\<close>, and
  returns \<^verbatim>\<open>func\<close> itself.
\<close>

fun no_control_flow_divergence :: "string list \<Rightarrow> 'c pyfunction \<Rightarrow> error + 'c pyfunction" where
  "no_control_flow_divergence [] func = Inr func"
| "no_control_flow_divergence (name # rest) func =
     (if name \<in> set (co_names func)
      then Inl (ControlFlowDivergenceError (fn_name func) name)
      else no_control_flow_divergence rest func)"

section \<open>Circuits and gates\<close>

text \<open>
  Modelled from the spec: the classes \<^verbatim>\<open>QuantumCircuit\<close> and \<^verbatim>\<open>Gate\<close> come from the
  Qiskit library, whose code is not part of the repository. The spec describes a
  structural unit as a named placeholder element of fixed size, and a composition as an
  ordered sequence of references to units. A gate object made from a circuit carries its
  identity (the number of gate objects made before it), the circuit's name, its size and
  its content; \<open>CXGate\<close> is the library's controlled-not. Making a gate object advances
  the counter of gate objects by one.
\<close>

datatype gate = CXGate | Gate nat "string option" nat "(gate \<times> nat list) list"

record QuantumCircuit =
  num_qubits :: nat
  qc_name :: "string option"
  data :: "(gate \<times> nat list) list"

definition QuantumCircuit_init :: "nat \<Rightarrow> string option \<Rightarrow> QuantumCircuit" where
  "QuantumCircuit_init n nm = \<lparr>num_qubits = n, qc_name = nm, data = []\<rparr>"

definition QuantumCircuit_append :: "gate \<Rightarrow> nat list \<Rightarrow> QuantumCircuit \<Rightarrow> QuantumCircuit" where
  "QuantumCircuit_append g qargs qc = qc\<lparr>data := data qc @ [(g, qargs)]\<rparr>"

definition QuantumCircuit_cx :: "nat \<Rightarrow> nat \<Rightarrow> QuantumCircuit \<Rightarrow> QuantumCircuit" where
  "QuantumCircuit_cx c t qc = QuantumCircuit_append CXGate [c, t] qc"

definition QuantumCircuit_to_gate :: "QuantumCircuit \<Rightarrow> nat \<Rightarrow> gate \<times> nat" where
  "QuantumCircuit_to_gate qc n = (Gate n (qc_name qc) (num_qubits qc) (data qc), Suc n)"

section \<open>QuantumSafeFunction\<close>

text \<open>
  The class has one attribute, \<^verbatim>\<open>func\<close>, set by \<^verbatim>\<open>__init__\<close> to its argument. The
  annotation says \<^verbatim>\<open>Callable[[int], int]\<close>; Python does not enforce it, so the
  callable is any function of an integer that may have effects, may raise and may return
  any value. \<^verbatim>\<open>to_gate\<close> does not read \<^verbatim>\<open>func\<close>.
\<close>

record 's QuantumSafeFunction =
  func :: "int \<Rightarrow> 's \<Rightarrow> (error + pyobj) \<times> 's"

definition QuantumSafeFunction_init ::
  "(int \<Rightarrow> 's \<Rightarrow> (error + pyobj) \<times> 's) \<Rightarrow> 's QuantumSafeFunction" where
  "QuantumSafeFunction_init f = \<lparr>func = f\<rparr>"

definition evaluate :: "'s QuantumSafeFunction \<Rightarrow> int \<Rightarrow> 's \<Rightarrow> (error + pyobj) \<times> 's" where
  "evaluate self x s = func self x s"

definition to_gate :: "'s QuantumSafeFunction \<Rightarrow> string \<Rightarrow> nat \<Rightarrow> gate \<times> nat" where
  "to_gate self name n =
     (let qc = QuantumCircuit_init 2 (Some name);
          qc = QuantumCircuit_cx 0 1 qc
      in QuantumCircuit_to_gate qc n)"

section \<open>QuantumLoop\<close>

record 's QuantumLoop =
  iterations :: int
  body :: "'s QuantumSafeFunction"

definition QuantumLoop_init :: "int \<Rightarrow> 's QuantumSafeFunction \<Rightarrow> error + 's QuantumLoop" where
  "QuantumLoop_init n b =
     (if n \<le> 0 then Inl (ValueError ''Quantum loops must have fixed positive iterations'')
      else Inr \<lparr>iterations = n, body = b\<rparr>)"

text \<open>The loop \<^verbatim>\<open>for _ in range(self.iterations): qc.append(gate, [0, 1])\<close>.\<close>

fun append_times :: "nat \<Rightarrow> gate \<Rightarrow> QuantumCircuit \<Rightarrow> QuantumCircuit" where
  "append_times 0 g qc = qc"
| "append_times (Suc k) g qc = append_times k g (QuantumCircuit_append g [0, 1] qc)"

text \<open>\<^verbatim>\<open>to_gate\<close> is called with its default name \<^verbatim>\<open>"U_f"\<close>; \<^verbatim>\<open>range\<close> of a count
  that is not positive is empty.\<close>

definition build_circuit :: "'s QuantumLoop \<Rightarrow> nat \<Rightarrow> QuantumCircuit \<times> nat" where
  "build_circuit self n =
     (let qc = QuantumCircuit_init 2 None;
          (g, n') = to_gate (body self) ''U_f'' n
      in (append_times (nat (iterations self)) g qc, n'))"

section \<open>Sample inputs\<close>

definition empty_store :: store where
  "empty_store = \<lparr>dicts = (\<lambda>_. Map.empty), next_cell = 0\<rparr>"

text \<open>\<^verbatim>\<open>def reversible_increment(x): return x ^ 1\<close>, before decoration.\<close>

definition reversible_increment_raw :: "(int \<Rightarrow> int) pyfunction" where
  "reversible_increment_raw =
     \<lparr>fn_name = ''reversible_increment'', co_names = [], fn_call = (\<lambda>x. xor x 1)\<rparr>"

text \<open>\<^verbatim>\<open>def f(x): return 0\<close>.\<close>

definition constant_zero :: "(int \<Rightarrow> int) pyfunction" where
  "constant_zero = \<lparr>fn_name = ''f'', co_names = [], fn_call = (\<lambda>x. 0)\<rparr>"

text \<open>One enumeration of the forbidden set.\<close>

definition order0 :: "string list" where
  "order0 = [''if'', ''while'', ''break'', ''continue'']"

text \<open>
  \<^verbatim>\<open>def step(x):\<close> \<^verbatim>\<open>if x > 0: return min(x, 1)\<close> \<^verbatim>\<open>return 0\<close>. The only name the
  body refers to is the global \<^verbatim>\<open>min\<close>; \<^verbatim>\<open>x\<close> is a local variable and \<^verbatim>\<open>if\<close> is
  syntax, compiled to a jump.
\<close>

definition branches_on_input :: "(int \<Rightarrow> int) pyfunction" where
  "branches_on_input =
     \<lparr>fn_name = ''step'', co_names = [''min''], fn_call = (\<lambda>x. if 0 < x then min x 1 else 0)\<rparr>"

text \<open>A function without a branch that refers to the same global.\<close>

definition straight_line :: "(int \<Rightarrow> int) pyfunction" where
  "straight_line = \<lparr>fn_name = ''cap'', co_names = [''min''], fn_call = (\<lambda>x. min x 1)\<rparr>"

text \<open>A code object whose name table holds the string \<^verbatim>\<open>while\<close>.\<close>

definition names_while :: "(int \<Rightarrow> int) pyfunction" where
  "names_while = \<lparr>fn_name = ''g'', co_names = [''print'', ''while''], fn_call = (\<lambda>x. x)\<rparr>"

text \<open>\<^verbatim>\<open>def drop(x): return None\<close> and \<^verbatim>\<open>def zero(x): return 0\<close>, without state.\<close>

definition returns_none :: "(int \<Rightarrow> unit \<Rightarrow> (error + pyobj) \<times> unit) pyfunction" where
  "returns_none = \<lparr>fn_name = ''drop'', co_names = [], fn_call = (\<lambda>x s. (Inr PyNone, s))\<rparr>"

definition returns_zero :: "(int \<Rightarrow> unit \<Rightarrow> (error + pyobj) \<times> unit) pyfunction" where
  "returns_zero = \<lparr>fn_name = ''zero'', co_names = [], fn_call = (\<lambda>x s. (Inr (PyInt 0), s))\<rparr>"

section \<open>Properties of the reversibility decorator\<close>

lemma reversible_wrapper_fresh:
  "dicts st (cl_seen_outputs w) (fn_call (cl_func w) x) = None \<Longrightarrow>
   reversible_wrapper w x st =
     (Inr (fn_call (cl_func w) x),
      st\<lparr>dicts := (dicts st)(cl_seen_outputs w :=
            (dicts st (cl_seen_outputs w))(fn_call (cl_func w) x \<mapsto> x))\<rparr>)"
  by (simp add: reversible_wrapper_def Let_def)

lemma reversible_wrapper_same:
  "dicts st (cl_seen_outputs w) (fn_call (cl_func w) x) = Some x \<Longrightarrow>
   reversible_wrapper w x st = (Inr (fn_call (cl_func w) x), st)"
proof -
  assume h: "dicts st (cl_seen_outputs w) (fn_call (cl_func w) x) = Some x"
  have "(dicts st (cl_seen_outputs w))(fn_call (cl_func w) x \<mapsto> x) = dicts st (cl_seen_outputs w)"
    using h by (simp add: map_upd_triv)
  then show ?thesis
    using h by (simp add: reversible_wrapper_def Let_def)
qed

lemma reversible_wrapper_collision:
  "dicts st (cl_seen_outputs w) (fn_call (cl_func w) x) = Some x' \<Longrightarrow> x' \<noteq> x \<Longrightarrow>
   reversible_wrapper w x st =
     (Inl (IrreversibleFunctionError (fn_name (cl_func w)) x' x (fn_call (cl_func w) x)), st)"
  by (simp add: reversible_wrapper_def Let_def)

lemma reversible_closure [simp]:
  "cl_func (fst (reversible f st0)) = f"
  "cl_seen_outputs (fst (reversible f st0)) = next_cell st0"
  by (simp_all add: reversible_def)

lemma reversible_wrapper_ok:
  "fst (reversible_wrapper w x st) = Inr y \<Longrightarrow>
   y = fn_call (cl_func w) x \<and>
   dicts (snd (reversible_wrapper w x st)) (cl_seen_outputs w) (fn_call (cl_func w) x) = Some x"
  by (auto simp: reversible_wrapper_def Let_def split: if_splits)

lemma reversible_wrapper_raises_iff:
  "(\<exists>e. fst (reversible_wrapper w x st) = Inl e) \<longleftrightarrow>
   (\<exists>x'. dicts st (cl_seen_outputs w) (fn_call (cl_func w) x) = Some x' \<and> x' \<noteq> x)"
  by (auto simp: reversible_wrapper_def Let_def)

lemma fst_calls_Cons:
  "fst (calls w (x # xs) st) =
   fst (reversible_wrapper w x st) # fst (calls w xs (snd (reversible_wrapper w x st)))"
  by (simp split: prod.splits)

lemma snd_calls_Cons:
  "snd (calls w (x # xs) st) = snd (calls w xs (snd (reversible_wrapper w x st)))"
  by (simp split: prod.splits)

lemma calls_replicate:
  "fst (reversible_wrapper w x st) = Inr y \<Longrightarrow>
   fst (calls w (replicate k x) st) = replicate k (Inr y)"
proof (induction k arbitrary: st)
  case 0
  then show ?case by simp
next
  case (Suc k)
  obtain r st' where c: "reversible_wrapper w x st = (r, st')"
    by (cases "reversible_wrapper w x st")
  with Suc.prems have r: "r = Inr y" by simp
  from reversible_wrapper_ok [of w x st y] Suc.prems c
  have y: "y = fn_call (cl_func w) x"
    and rec: "dicts st' (cl_seen_outputs w) (fn_call (cl_func w) x) = Some x"
    by simp_all
  have "fst (reversible_wrapper w x st') = Inr y"
    using reversible_wrapper_same [OF rec] y by simp
  then have "fst (calls w (replicate k x) st') = replicate k (Inr y)"
    by (rule Suc.IH)
  then show ?case
    using c r by (simp add: fst_calls_Cons del: calls.simps)
qed

lemma reversible_wrapper_frame:
  "c \<noteq> cl_seen_outputs w \<Longrightarrow> dicts (snd (reversible_wrapper w x st)) c = dicts st c"
  by (simp add: reversible_wrapper_def Let_def)

lemma reversible_wrapper_next_cell:
  "next_cell (snd (reversible_wrapper w x st)) = next_cell st"
  by (simp add: reversible_wrapper_def Let_def)

lemma reversible_wrapper_local:
  "dicts st (cl_seen_outputs w) = dicts st' (cl_seen_outputs w) \<Longrightarrow>
   fst (reversible_wrapper w x st) = fst (reversible_wrapper w x st') \<and>
   dicts (snd (reversible_wrapper w x st)) (cl_seen_outputs w) =
   dicts (snd (reversible_wrapper w x st')) (cl_seen_outputs w)"
  by (simp add: reversible_wrapper_def Let_def)

lemma calls_frame:
  "c \<noteq> cl_seen_outputs w \<Longrightarrow> dicts (snd (calls w xs st)) c = dicts st c"
proof (induction xs arbitrary: st)
  case Nil
  then show ?case by simp
next
  case (Cons x xs)
  obtain r st' where c: "reversible_wrapper w x st = (r, st')"
    by (cases "reversible_wrapper w x st")
  have "dicts st' c = dicts st c"
    using reversible_wrapper_frame [OF Cons.prems, of x st] c by simp
  moreover have "dicts (snd (calls w xs st')) c = dicts st' c"
    using Cons.IH [OF Cons.prems] .
  ultimately show ?case
    using c by (simp add: snd_calls_Cons del: calls.simps)
qed

lemma calls_next_cell: "next_cell (snd (calls w xs st)) = next_cell st"
proof (induction xs arbitrary: st)
  case Nil
  then show ?case by simp
next
  case (Cons x xs)
  obtain r st' where c: "reversible_wrapper w x st = (r, st')"
    by (cases "reversible_wrapper w x st")
  have "next_cell st' = next_cell st"
    using reversible_wrapper_next_cell [of w x st] c by simp
  then show ?case
    using c Cons.IH [of st'] by (simp add: snd_calls_Cons del: calls.simps)
qed

lemma calls_local:
  "dicts st (cl_seen_outputs w) = dicts st' (cl_seen_outputs w) \<Longrightarrow>
   fst (calls w xs st) = fst (calls w xs st')"
proof (induction xs arbitrary: st st')
  case Nil
  then show ?case by simp
next
  case (Cons x xs)
  obtain r s where c: "reversible_wrapper w x st = (r, s)"
    by (cases "reversible_wrapper w x st")
  obtain r' s' where c': "reversible_wrapper w x st' = (r', s')"
    by (cases "reversible_wrapper w x st'")
  from reversible_wrapper_local [OF Cons.prems, of x] c c'
  have "r = r'" and "dicts s (cl_seen_outputs w) = dicts s' (cl_seen_outputs w)"
    by simp_all
  then show ?case
    using c c' Cons.IH [of s s'] by (simp add: fst_calls_Cons del: calls.simps)
qed


section \<open>Properties of the other components\<close>

lemma ncfd_accepts_iff:
  "no_control_flow_divergence order f = Inr f \<longleftrightarrow> set order \<inter> set (co_names f) = {}"
  by (induction order) auto

lemma ncfd_Inr: "no_control_flow_divergence order f = Inr g \<Longrightarrow> g = f"
  by (induction order) (auto split: if_splits)

lemma ncfd_rejects:
  "no_control_flow_divergence order f = Inl e \<Longrightarrow>
   \<exists>name \<in> set order \<inter> set (co_names f). e = ControlFlowDivergenceError (fn_name f) name"
  by (induction order) (auto split: if_splits)

lemma append_times_data:
  "data (append_times k g qc) = data qc @ replicate k (g, [0, 1])"
  by (induction k arbitrary: qc) (simp_all add: QuantumCircuit_append_def replicate_app_Cons_same)

lemma append_times_frame:
  "num_qubits (append_times k g qc) = num_qubits qc \<and> qc_name (append_times k g qc) = qc_name qc"
  by (induction k arbitrary: qc) (simp_all add: QuantumCircuit_append_def)

lemma ncfd_total:
  "(\<exists>e. no_control_flow_divergence order f = Inl e) \<longleftrightarrow>
   no_control_flow_divergence order f \<noteq> Inr f"
  using ncfd_Inr [of order f] by (cases "no_control_flow_divergence order f") auto

section \<open>Claims\<close>

text \<open>
  C1. A wrapper \<open>w\<close> made by \<^const>\<open>reversible\<close> from \<open>f\<close>, called on an input \<open>x\<close>
  whose output \<open>f x\<close> is not recorded in the wrapper's own dictionary for another input,
  returns \<open>f x\<close> and stores \<open>f x \<mapsto> x\<close> in that dictionary; nothing else in the store
  changes.
\<close>

theorem reversible_returns_and_records:
  assumes "w = fst (reversible f st0)"
    and "\<not> (\<exists>x'. dicts st (cl_seen_outputs w) (fn_call f x) = Some x' \<and> x' \<noteq> x)"
  shows "reversible_wrapper w x st =
           (Inr (fn_call f x),
            st\<lparr>dicts := (dicts st)(cl_seen_outputs w :=
                  (dicts st (cl_seen_outputs w))(fn_call f x \<mapsto> x))\<rparr>)"
proof (cases "dicts st (cl_seen_outputs w) (fn_call f x)")
  case None
  then show ?thesis
    using assms(1) reversible_wrapper_fresh [of st w x] by simp
next
  case (Some x')
  with assms(2) have "x' = x" by simp
  with Some show ?thesis
    using assms(1) reversible_wrapper_same [of st w x] by (simp add: map_upd_triv)
qed

theorem reversible_returns_and_records_witness:
  "\<not> (\<exists>x'. dicts (snd (reversible reversible_increment_raw empty_store))
            (cl_seen_outputs (fst (reversible reversible_increment_raw empty_store)))
            (fn_call reversible_increment_raw 0) = Some x' \<and> x' \<noteq> 0) \<and>
   fst (reversible_wrapper (fst (reversible reversible_increment_raw empty_store)) 0
          (snd (reversible reversible_increment_raw empty_store))) = Inr 1 \<and>
   dicts (snd (reversible_wrapper (fst (reversible reversible_increment_raw empty_store)) 0
          (snd (reversible reversible_increment_raw empty_store)))) 0 1 = Some 0"
proof -
  have h: "\<not> (\<exists>x'. dicts (snd (reversible reversible_increment_raw empty_store))
            (cl_seen_outputs (fst (reversible reversible_increment_raw empty_store)))
            (fn_call reversible_increment_raw 0) = Some x' \<and> x' \<noteq> 0)"
    by (simp add: reversible_def empty_store_def reversible_increment_raw_def)
  show ?thesis
    using h reversible_returns_and_records [OF refl h]
    by (simp add: reversible_def empty_store_def reversible_increment_raw_def)
qed

text \<open>
  C2. A wrapper made by \<^const>\<open>reversible\<close> from \<open>f\<close>, called on an input \<open>x\<close> whose
  output \<open>f x\<close> is recorded in the wrapper's dictionary for another input \<open>x'\<close>, raises
  \<open>IrreversibleFunctionError\<close> with the function's name, \<open>x'\<close>, \<open>x\<close> and the output, and
  leaves the whole store, the entry \<open>f x \<mapsto> x'\<close> included, as it was.
\<close>

theorem reversible_collision_raises:
  assumes "w = fst (reversible f st0)"
    and "dicts st (cl_seen_outputs w) (fn_call f x) = Some x'"
    and "x' \<noteq> x"
  shows "reversible_wrapper w x st =
           (Inl (IrreversibleFunctionError (fn_name f) x' x (fn_call f x)), st)"
  using assms by (simp add: reversible_wrapper_collision)

theorem reversible_collision_raises_witness:
  "dicts (snd (calls (fst (reversible constant_zero empty_store)) [0]
                 (snd (reversible constant_zero empty_store))))
         (cl_seen_outputs (fst (reversible constant_zero empty_store)))
         (fn_call constant_zero 1) = Some 0 \<and>
   (0::int) \<noteq> 1 \<and>
   reversible_wrapper (fst (reversible constant_zero empty_store)) 1
     (snd (calls (fst (reversible constant_zero empty_store)) [0]
                 (snd (reversible constant_zero empty_store)))) =
     (Inl (IrreversibleFunctionError ''f'' 0 1 0),
      snd (calls (fst (reversible constant_zero empty_store)) [0]
                 (snd (reversible constant_zero empty_store))))"
proof -
  have h: "dicts (snd (calls (fst (reversible constant_zero empty_store)) [0]
                 (snd (reversible constant_zero empty_store))))
         (cl_seen_outputs (fst (reversible constant_zero empty_store)))
         (fn_call constant_zero 1) = Some 0"
    by (simp add: reversible_def reversible_wrapper_def Let_def empty_store_def constant_zero_def)
  have n: "(0::int) \<noteq> 1" by simp
  show ?thesis
    using h n reversible_collision_raises [OF refl h n]
    by (simp add: constant_zero_def)
qed

text \<open>
  C3. Calling a wrapper again on the same input is never a violation: a call on \<open>x\<close> whose
  pair is already recorded succeeds and changes nothing; once a call on \<open>x\<close> has
  succeeded, every further call on \<open>x\<close> succeeds with the same output; on a new wrapper
  any number of calls on one input all succeed; and a call raises exactly when the
  output is recorded for a different input.
\<close>

theorem reversible_same_input_never_violates:
  "(dicts st (cl_seen_outputs w) (fn_call (cl_func w) x) = Some x \<longrightarrow>
      reversible_wrapper w x st = (Inr (fn_call (cl_func w) x), st)) \<and>
   (fst (reversible_wrapper w x st) = Inr y \<longrightarrow>
      fst (calls w (replicate k x) st) = replicate k (Inr y)) \<and>
   fst (calls (fst (reversible f st0)) (replicate k x) (snd (reversible f st0))) =
      replicate k (Inr (fn_call f x)) \<and>
   ((\<exists>e. fst (reversible_wrapper w x st) = Inl e) \<longleftrightarrow>
      (\<exists>x'. dicts st (cl_seen_outputs w) (fn_call (cl_func w) x) = Some x' \<and> x' \<noteq> x))"
proof -
  have "fst (reversible_wrapper (fst (reversible f st0)) x (snd (reversible f st0))) =
        Inr (fn_call f x)"
    by (simp add: reversible_def reversible_wrapper_def Let_def)
  then have "fst (calls (fst (reversible f st0)) (replicate k x) (snd (reversible f st0))) =
      replicate k (Inr (fn_call f x))"
    by (rule calls_replicate)
  then show ?thesis
    using reversible_wrapper_same [of st w x] calls_replicate [of w x st y k]
      reversible_wrapper_raises_iff [of w x st]
    by blast
qed

theorem reversible_same_input_never_violates_witness:
  "dicts (snd (calls (fst (reversible constant_zero empty_store)) [0]
                 (snd (reversible constant_zero empty_store))))
         (cl_seen_outputs (fst (reversible constant_zero empty_store)))
         (fn_call (cl_func (fst (reversible constant_zero empty_store))) 0) = Some 0 \<and>
   reversible_wrapper (fst (reversible constant_zero empty_store)) 0
     (snd (calls (fst (reversible constant_zero empty_store)) [0]
                 (snd (reversible constant_zero empty_store)))) =
     (Inr 0, snd (calls (fst (reversible constant_zero empty_store)) [0]
                 (snd (reversible constant_zero empty_store)))) \<and>
   fst (calls (fst (reversible constant_zero empty_store)) (replicate 3 0)
          (snd (calls (fst (reversible constant_zero empty_store)) [0]
                 (snd (reversible constant_zero empty_store))))) = [Inr 0, Inr 0, Inr 0] \<and>
   fst (calls (fst (reversible constant_zero empty_store)) (replicate 3 0)
          (snd (reversible constant_zero empty_store))) = [Inr 0, Inr 0, Inr 0]"
proof -
  have h: "dicts (snd (calls (fst (reversible constant_zero empty_store)) [0]
                 (snd (reversible constant_zero empty_store))))
         (cl_seen_outputs (fst (reversible constant_zero empty_store)))
         (fn_call (cl_func (fst (reversible constant_zero empty_store))) 0) = Some 0"
    by (simp add: reversible_def reversible_wrapper_def Let_def empty_store_def constant_zero_def)
  have c: "fn_call constant_zero 0 = 0"
    by (simp add: constant_zero_def)
  show ?thesis
    using h c reversible_same_input_never_violates
      [of "snd (calls (fst (reversible constant_zero empty_store)) [0]
                 (snd (reversible constant_zero empty_store)))"
          "fst (reversible constant_zero empty_store)" 0 0 3 constant_zero empty_store]
    by (simp add: numeral_3_eq_3)
qed

text \<open>
  C4. When the wrapped function returns a result, the wrapper of
  \<^const>\<open>no_information_deletion\<close> raises \<open>InformationDeletionError\<close> with the function's
  name exactly when that result is \<open>PyNone\<close>; any other result, whatever its value, is
  returned unchanged, with the state the wrapped function left, from the call of the
  wrapped function on the arguments as given.
\<close>

theorem no_information_deletion_raises_iff_none:
  assumes "fn_call f args s = (Inr result, s')"
  shows "(no_information_deletion f args s =
            (Inl (InformationDeletionError (fn_name f)), s') \<longleftrightarrow> result = PyNone) \<and>
         ((\<exists>e. fst (no_information_deletion f args s) = Inl e) \<longleftrightarrow> result = PyNone) \<and>
         (result \<noteq> PyNone \<longrightarrow> no_information_deletion f args s = (Inr result, s'))"
  using assms by (simp add: no_information_deletion_def)

theorem no_information_deletion_raises_iff_none_witness:
  "fn_call returns_zero 7 () = (Inr (PyInt 0), ()) \<and>
   PyInt 0 \<noteq> PyNone \<and>
   no_information_deletion returns_zero 7 () = (Inr (PyInt 0), ()) \<and>
   fn_call returns_none 7 () = (Inr PyNone, ()) \<and>
   no_information_deletion returns_none 7 () = (Inl (InformationDeletionError ''drop''), ())"
proof -
  have h: "fn_call returns_zero 7 () = (Inr (PyInt 0), ())"
    by (simp add: returns_zero_def)
  have k: "fn_call returns_none 7 () = (Inr PyNone, ())"
    by (simp add: returns_none_def)
  have n: "fn_name returns_none = ''drop''"
    by (simp add: returns_none_def)
  show ?thesis
    using h k n no_information_deletion_raises_iff_none [OF h]
      no_information_deletion_raises_iff_none [OF k]
    by simp
qed

text \<open>
  C5. \<^const>\<open>no_control_flow_divergence\<close> is applied to the function object, without
  calling it. Whatever the order in which the forbidden set is visited: if a member of
  the forbidden set is among the names of the function's name table, the decorator raises
  \<open>ControlFlowDivergenceError\<close> with the function's name and such a member; otherwise it
  returns the function object it was given.
\<close>

theorem no_control_flow_divergence_decides:
  assumes "set order = forbidden"
  shows "(set (co_names f) \<inter> forbidden \<noteq> {} \<longrightarrow>
            (\<exists>name \<in> set (co_names f) \<inter> forbidden.
               no_control_flow_divergence order f =
                 Inl (ControlFlowDivergenceError (fn_name f) name))) \<and>
         (set (co_names f) \<inter> forbidden = {} \<longrightarrow>
            no_control_flow_divergence order f = Inr f)"
proof (intro conjI impI)
  assume ne: "set (co_names f) \<inter> forbidden \<noteq> {}"
  then have "no_control_flow_divergence order f \<noteq> Inr f"
    using assms ncfd_accepts_iff [of order f] by auto
  then obtain e where e: "no_control_flow_divergence order f = Inl e"
    using ncfd_Inr [of order f] by (cases "no_control_flow_divergence order f") auto
  from ncfd_rejects [OF e] assms
  show "\<exists>name \<in> set (co_names f) \<inter> forbidden.
          no_control_flow_divergence order f =
            Inl (ControlFlowDivergenceError (fn_name f) name)"
    using e by auto
next
  assume "set (co_names f) \<inter> forbidden = {}"
  then show "no_control_flow_divergence order f = Inr f"
    using assms ncfd_accepts_iff [of order f] by auto
qed

theorem no_control_flow_divergence_decides_witness:
  "set order0 = forbidden \<and>
   set (co_names names_while) \<inter> forbidden \<noteq> {} \<and>
   no_control_flow_divergence order0 names_while =
     Inl (ControlFlowDivergenceError ''g'' ''while'') \<and>
   set (co_names reversible_increment_raw) \<inter> forbidden = {} \<and>
   no_control_flow_divergence order0 reversible_increment_raw = Inr reversible_increment_raw"
proof -
  have h: "set order0 = forbidden"
    by (auto simp: order0_def forbidden_def)
  show ?thesis
    using h no_control_flow_divergence_decides [OF h, of names_while]
      no_control_flow_divergence_decides [OF h, of reversible_increment_raw]
    by (simp add: order0_def names_while_def reversible_increment_raw_def forbidden_def)
qed

text \<open>
  C6. \<^const>\<open>QuantumLoop_init\<close> raises \<open>ValueError\<close> when the iteration count is zero or
  negative, and for every positive count returns the loop object holding that count and
  that body.
\<close>

theorem QuantumLoop_init_positive:
  "(n \<le> 0 \<longrightarrow>
      QuantumLoop_init n b =
        Inl (ValueError ''Quantum loops must have fixed positive iterations'')) \<and>
   (0 < n \<longrightarrow> QuantumLoop_init n b = Inr \<lparr>iterations = n, body = b\<rparr>)"
  by (simp add: QuantumLoop_init_def)

theorem QuantumLoop_init_positive_witness:
  "(0::int) \<le> 0 \<and> - 5 \<le> (0::int) \<and> (0::int) < 3 \<and>
   QuantumLoop_init 0 (QuantumSafeFunction_init (fn_call returns_zero)) =
     Inl (ValueError ''Quantum loops must have fixed positive iterations'') \<and>
   QuantumLoop_init (- 5) (QuantumSafeFunction_init (fn_call returns_zero)) =
     Inl (ValueError ''Quantum loops must have fixed positive iterations'') \<and>
   QuantumLoop_init 3 (QuantumSafeFunction_init (fn_call returns_zero)) =
     Inr \<lparr>iterations = 3, body = QuantumSafeFunction_init (fn_call returns_zero)\<rparr>"
  using QuantumLoop_init_positive [of 0 "QuantumSafeFunction_init (fn_call returns_zero)"]
    QuantumLoop_init_positive [of "- 5" "QuantumSafeFunction_init (fn_call returns_zero)"]
    QuantumLoop_init_positive [of 3 "QuantumSafeFunction_init (fn_call returns_zero)"]
  by simp

text \<open>
  C7. For a loop constructed with a positive count \<open>n\<close>, \<^const>\<open>build_circuit\<close> makes
  one gate object (the counter of gate objects advances by one, as in one direct call of
  \<^const>\<open>to_gate\<close>) and returns a circuit on 2 qubits whose content is \<open>n\<close> entries, each
  that same gate object, the one a direct call of \<^const>\<open>to_gate\<close> returns, on qubits
  0 and 1.
\<close>

theorem build_circuit_replicates_one_gate:
  assumes "QuantumLoop_init n b = Inr loop"
  shows "0 < n \<and>
         to_gate b ''U_f'' k = (Gate k (Some ''U_f'') 2 [(CXGate, [0, 1])], Suc k) \<and>
         build_circuit loop k =
           (\<lparr>num_qubits = 2, qc_name = None,
             data = replicate (nat n) (fst (to_gate b ''U_f'' k), [0, 1])\<rparr>, Suc k) \<and>
         length (data (fst (build_circuit loop k))) = nat n"
proof -
  from assms have pos: "0 < n" and loop: "loop = \<lparr>iterations = n, body = b\<rparr>"
    by (auto simp: QuantumLoop_init_def split: if_splits)
  have g: "to_gate b ''U_f'' k = (Gate k (Some ''U_f'') 2 [(CXGate, [0, 1])], Suc k)"
    by (simp add: to_gate_def QuantumCircuit_init_def QuantumCircuit_cx_def
        QuantumCircuit_append_def QuantumCircuit_to_gate_def)
  have "append_times (nat n) (Gate k (Some ''U_f'') 2 [(CXGate, [0, 1])])
          (QuantumCircuit_init 2 None) =
        \<lparr>num_qubits = 2, qc_name = None,
         data = replicate (nat n) (Gate k (Some ''U_f'') 2 [(CXGate, [0, 1])], [0, 1])\<rparr>"
    using append_times_data [of "nat n" _ "QuantumCircuit_init 2 None"]
      append_times_frame [of "nat n" _ "QuantumCircuit_init 2 None"]
    by (simp add: QuantumCircuit_init_def)
  then have b: "build_circuit loop k =
           (\<lparr>num_qubits = 2, qc_name = None,
             data = replicate (nat n) (fst (to_gate b ''U_f'' k), [0, 1])\<rparr>, Suc k)"
    using g loop by (simp add: build_circuit_def)
  show ?thesis
    using pos g b by simp
qed

theorem build_circuit_replicates_one_gate_witness:
  "QuantumLoop_init 3 (QuantumSafeFunction_init (fn_call returns_zero)) =
     Inr \<lparr>iterations = 3, body = QuantumSafeFunction_init (fn_call returns_zero)\<rparr> \<and>
   build_circuit \<lparr>iterations = 3, body = QuantumSafeFunction_init (fn_call returns_zero)\<rparr> 0 =
     (\<lparr>num_qubits = 2, qc_name = None,
       data = [(Gate 0 (Some ''U_f'') 2 [(CXGate, [0, 1])], [0, 1]),
               (Gate 0 (Some ''U_f'') 2 [(CXGate, [0, 1])], [0, 1]),
               (Gate 0 (Some ''U_f'') 2 [(CXGate, [0, 1])], [0, 1])]\<rparr>, 1)"
proof -
  have h: "QuantumLoop_init 3 (QuantumSafeFunction_init (fn_call returns_zero)) =
     Inr \<lparr>iterations = 3, body = QuantumSafeFunction_init (fn_call returns_zero)\<rparr>"
    by (simp add: QuantumLoop_init_def)
  show ?thesis
    using h build_circuit_replicates_one_gate [OF h, of 0]
    by (simp add: numeral_3_eq_3)
qed

text \<open>
  C8, as the code has it. \<^const>\<open>QuantumSafeFunction_init\<close> stores the callable it is
  given as it is, for every callable, without any check; \<^const>\<open>evaluate\<close> is one call of
  the stored callable, with its result, its exception and its effects. The object holds
  no evidence of a check: the checks that run are those of the decorators the caller
  applied before, so a stored wrapper of \<^const>\<open>no_information_deletion\<close> never returns
  \<open>PyNone\<close>.
\<close>

theorem QuantumSafeFunction_stores_unchecked:
  "func (QuantumSafeFunction_init c) = c \<and>
   evaluate (QuantumSafeFunction_init c) x s = c x s \<and>
   fst (evaluate (QuantumSafeFunction_init (no_information_deletion f)) x s) \<noteq> Inr PyNone"
proof -
  have "fst (no_information_deletion f x s) \<noteq> Inr PyNone"
    by (simp add: no_information_deletion_def split: prod.splits sum.splits)
  then show ?thesis
    by (simp add: QuantumSafeFunction_init_def evaluate_def)
qed

theorem QuantumSafeFunction_unvalidated_counterexample:
  "evaluate (QuantumSafeFunction_init (fn_call returns_none)) 0 () = (Inr PyNone, ()) \<and>
   no_information_deletion returns_none 0 () = (Inl (InformationDeletionError ''drop''), ())"
  by (simp add: QuantumSafeFunction_init_def evaluate_def no_information_deletion_def
      returns_none_def)

text \<open>
  C9. Two wrappers made by \<^const>\<open>reversible\<close> from the same function, the second made
  after any calls through the first, own different dictionaries, each empty when its
  wrapper is made; making the second leaves the first's dictionary as it was; calls
  through one never change the dictionary of the other, and the outcomes of calls through
  one are the same whatever calls went through the other.
\<close>

theorem reversible_ledgers_independent:
  "(let (w1, st1) = reversible f st0;
        st1' = snd (calls w1 zs st1);
        (w2, st2) = reversible f st1'
    in cl_seen_outputs w1 \<noteq> cl_seen_outputs w2 \<and>
       dicts st1 (cl_seen_outputs w1) = Map.empty \<and>
       dicts st2 (cl_seen_outputs w2) = Map.empty \<and>
       dicts st2 (cl_seen_outputs w1) = dicts st1' (cl_seen_outputs w1) \<and>
       dicts (snd (calls w1 xs st2)) (cl_seen_outputs w2) = dicts st2 (cl_seen_outputs w2) \<and>
       dicts (snd (calls w2 ys st2)) (cl_seen_outputs w1) = dicts st2 (cl_seen_outputs w1) \<and>
       fst (calls w2 ys (snd (calls w1 xs st2))) = fst (calls w2 ys st2) \<and>
       fst (calls w1 xs (snd (calls w2 ys st2))) = fst (calls w1 xs st2))"
proof -
  obtain w1 st1 where r1: "reversible f st0 = (w1, st1)"
    by (cases "reversible f st0")
  define st1' where "st1' = snd (calls w1 zs st1)"
  obtain w2 st2 where r2: "reversible f st1' = (w2, st2)"
    by (cases "reversible f st1'")
  have c1: "cl_seen_outputs w1 = next_cell st0" and n1: "next_cell st1 = Suc (next_cell st0)"
    and e1: "dicts st1 (cl_seen_outputs w1) = Map.empty"
    using r1 by (auto simp: reversible_def)
  have n1': "next_cell st1' = Suc (next_cell st0)"
    using n1 by (simp add: st1'_def calls_next_cell)
  have c2: "cl_seen_outputs w2 = next_cell st1'"
    and e2: "dicts st2 (cl_seen_outputs w2) = Map.empty"
    and k2: "\<And>c. c \<noteq> next_cell st1' \<Longrightarrow> dicts st2 c = dicts st1' c"
    using r2 by (auto simp: reversible_def)
  have ne: "cl_seen_outputs w1 \<noteq> cl_seen_outputs w2"
    using c1 c2 n1' by simp
  have keep: "dicts st2 (cl_seen_outputs w1) = dicts st1' (cl_seen_outputs w1)"
    using k2 [of "cl_seen_outputs w1"] ne c2 by simp
  have f12: "dicts (snd (calls w1 xs st2)) (cl_seen_outputs w2) = dicts st2 (cl_seen_outputs w2)"
    using ne by (intro calls_frame) simp
  have f21: "dicts (snd (calls w2 ys st2)) (cl_seen_outputs w1) = dicts st2 (cl_seen_outputs w1)"
    using ne by (intro calls_frame) simp
  have o2: "fst (calls w2 ys (snd (calls w1 xs st2))) = fst (calls w2 ys st2)"
    using f12 by (rule calls_local)
  have o1: "fst (calls w1 xs (snd (calls w2 ys st2))) = fst (calls w1 xs st2)"
    using f21 by (rule calls_local)
  show ?thesis
    using r1 r2 ne e1 e2 keep f12 f21 o1 o2
    by (simp add: st1'_def [symmetric] Let_def)
qed

text \<open>
  C10. The outcome of \<^const>\<open>no_control_flow_divergence\<close> is decided by the name table
  alone: two function objects with the same name table are both accepted or both
  rejected, whatever they compute. The function \<^const>\<open>branches_on_input\<close>, whose result
  is chosen by a test on its input, has a name table without any forbidden string, and
  the decorator returns it unchanged.
\<close>

theorem no_control_flow_divergence_ignores_behaviour:
  assumes "set order = forbidden"
  shows "(co_names f = co_names g \<longrightarrow>
            ((\<exists>e. no_control_flow_divergence order f = Inl e) \<longleftrightarrow>
             (\<exists>e. no_control_flow_divergence order g = Inl e)) \<and>
            (no_control_flow_divergence order f = Inr f \<longleftrightarrow>
             no_control_flow_divergence order g = Inr g)) \<and>
         set (co_names branches_on_input) \<inter> forbidden = {} \<and>
         no_control_flow_divergence order branches_on_input = Inr branches_on_input \<and>
         fn_call branches_on_input 5 = 1 \<and> fn_call branches_on_input (- 5) = 0"
proof -
  have same: "co_names f = co_names g \<Longrightarrow>
      (no_control_flow_divergence order f = Inr f \<longleftrightarrow>
       no_control_flow_divergence order g = Inr g)"
    by (simp add: ncfd_accepts_iff)
  have tot: "\<And>h :: 'z pyfunction. (\<exists>e. no_control_flow_divergence order h = Inl e) \<longleftrightarrow>
      no_control_flow_divergence order h \<noteq> Inr h"
  proof -
    fix h :: "'z pyfunction"
    show "(\<exists>e. no_control_flow_divergence order h = Inl e) \<longleftrightarrow>
      no_control_flow_divergence order h \<noteq> Inr h"
      using ncfd_Inr [of order h] by (cases "no_control_flow_divergence order h") auto
  qed
  have free: "set (co_names branches_on_input) \<inter> forbidden = {}"
    by (simp add: branches_on_input_def forbidden_def)
  then have acc: "no_control_flow_divergence order branches_on_input = Inr branches_on_input"
    using assms ncfd_accepts_iff [of order branches_on_input] by auto
  have vals: "fn_call branches_on_input 5 = 1 \<and> fn_call branches_on_input (- 5) = 0"
    by (simp add: branches_on_input_def)
  show ?thesis
    using same free acc vals ncfd_total [of order f] ncfd_total [of order g]
    by auto
qed

theorem no_control_flow_divergence_ignores_behaviour_witness:
  "set order0 = forbidden \<and>
   co_names branches_on_input = co_names straight_line \<and>
   no_control_flow_divergence order0 branches_on_input = Inr branches_on_input \<and>
   no_control_flow_divergence order0 straight_line = Inr straight_line"
proof -
  have h: "set order0 = forbidden"
    by (auto simp: order0_def forbidden_def)
  have c: "co_names branches_on_input = co_names straight_line"
    by (simp add: branches_on_input_def straight_line_def)
  show ?thesis
    using h c no_control_flow_divergence_ignores_behaviour
      [OF h, of branches_on_input straight_line]
    by blast
qed

end
